theory Spec2Isabelle
  imports Main "HOL-Library.AList"
begin

section \<open>Values, objects and errors\<close>

text \<open>
  The values an attribute of an entity can hold. A promise-like value is given by
  what it settles to: \<open>VPromise v\<close> is fulfilled with \<open>v\<close>, \<open>VRejected m\<close>
  is rejected with message \<open>m\<close>. A \<open>Factory\<close> instance is a reference
  (\<open>VFactory i\<close>) into the table of factory instances of the environment. An object,
  such as a produced entity, is the ordered list of its own properties.
\<close>

datatype jsval =
    VUndefined
  | VBoolean bool
  | VNumber int
  | VString string
  | VPromise jsval
  | VRejected string
  | VFactory nat
  | VObject "(string \<times> jsval) list"

type_synonym obj = "(string \<times> jsval) list"

type_synonym entity = obj

text \<open>An entry of \<open>requiredContextKeys\<close>: one key, or a group of keys.\<close>

datatype key_entry = Key string | KeyGroup "string list"

text \<open>
  The failures of a construction call. \<open>factory.ts\<close> throws plain \<open>Error\<close> objects:
  \<open>NotImplementedError\<close> stands for
  \<^verbatim>\<open>Error('No entity was found in Factory options, so you must override the `entity` method')\<close>
  and \<open>MissingCollaboratorError\<close> for
  \<^verbatim>\<open>Error(`SeedingSource options was not set for Factory ...`)\<close>.
  \<open>MissingContextError\<close> is what \<open>expectContext\<close> raises, and \<open>Thrown\<close> is any
  failure of a user hook, of a rejected promise or of the persistence layer.
\<close>

datatype error =
    MissingContextError key_entry
  | NotImplementedError
  | MissingCollaboratorError
  | Thrown string

text \<open>
  What a call does besides returning is recorded, in order, as a trace of events: the
  invocations of the hooks with their arguments, and the calls made on the data source
  of a seeding source (identified by a number).
\<close>

datatype event =
    EntityHook "entity option" obj
  | MapFunction entity
  | Finalize entity obj
  | Initialize nat
  | Save nat entity "obj option"

record state =
  initialized :: "nat list"
  trace :: "event list"

text \<open>
  The outcome of an awaited call: a value, a thrown error, or \<open>OutOfFuel\<close> when the
  nesting of factories is deeper than the fuel given (a factory that reaches itself
  through its attributes never returns).
\<close>

datatype 'a outcome = Return 'a | Throw error | OutOfFuel

section \<open>The factory\<close>

text \<open>
  \<open>FactoryOptions\<close> (set by the definition of a factory class) and
  \<open>FactoryOptionsOverrides\<close> (given to the constructor). An entity class is given by
  the fresh instance that \<^verbatim>\<open>new entityClass()\<close> yields.
\<close>

record factoryOptions =
  opt_entity :: "entity option"
  opt_requiredContextKeys :: "key_entry list option"

record factoryOptionsOverrides = factoryOptions +
  opt_seedingSource :: "nat option"

text \<open>
  A factory instance: its two option records, the registered map function, and the two
  methods a subclass may override (\<open>None\<close>: the method of the base class is
  inherited). The map function and the finalize method work by changing the entity they
  are given, so they return the entity as they leave it.
\<close>

record factory =
  options :: factoryOptions
  optionOverrides :: factoryOptionsOverrides
  mapFunction :: "(entity \<Rightarrow> error + entity) option"
  entity_override :: "(entity option \<Rightarrow> obj \<Rightarrow> error + entity) option"
  finalize_override :: "(entity \<Rightarrow> obj \<Rightarrow> error + entity) option"

text \<open>
  The environment: the factory instances that attribute values refer to, and the
  \<open>save\<close> operation of the entity manager of a data source (given the data source, the
  events so far, the entity and the save options).
\<close>

record env =
  factories :: "nat \<Rightarrow> factory"
  entityManager_save :: "nat \<Rightarrow> event list \<Rightarrow> entity \<Rightarrow> obj option \<Rightarrow> error + entity"

definition seedingSource :: "factory \<Rightarrow> error + nat" where
  "seedingSource f =
     (case opt_seedingSource (optionOverrides f) of
        Some ds \<Rightarrow> Inr ds
      | None \<Rightarrow> Inl MissingCollaboratorError)"

definition requiredContextKeys :: "factory \<Rightarrow> key_entry list option" where
  "requiredContextKeys f =
     (case opt_requiredContextKeys (optionOverrides f) of
        Some ks \<Rightarrow> Some ks
      | None \<Rightarrow> opt_requiredContextKeys (options f))"

definition entityClass :: "factory \<Rightarrow> entity option" where
  "entityClass f =
     (case opt_entity (optionOverrides f) of
        Some c \<Rightarrow> Some c
      | None \<Rightarrow> opt_entity (options f))"

text \<open>The \<open>entity\<close> method: the override of the subclass, or the base method.\<close>

definition entity :: "factory \<Rightarrow> entity option \<Rightarrow> obj \<Rightarrow> error + entity" where
  "entity f e context =
     (case entity_override f of
        Some h \<Rightarrow> h e context
      | None \<Rightarrow> (case e of Some x \<Rightarrow> Inr x | None \<Rightarrow> Inl NotImplementedError))"

text \<open>The \<open>finalize\<close> method: the override of the subclass, or the empty base method.\<close>

definition finalize :: "factory \<Rightarrow> entity \<Rightarrow> obj \<Rightarrow> error + entity" where
  "finalize f e context =
     (case finalize_override f of
        Some h \<Rightarrow> h e context
      | None \<Rightarrow> Inr e)"

definition map_factory :: "factory \<Rightarrow> (entity \<Rightarrow> error + entity) \<Rightarrow> factory" where
  "map_factory f fn = f\<lparr>mapFunction := Some fn\<rparr>"

section \<open>Helpers that factory.ts imports\<close>

text \<open>
  Modelled from the spec: \<open>isPromiseLike\<close> (utils/is-promise-like.util) is not among
  the sources. A value is promise-like when it is an object exposing a
  deferred-computation completion contract.
\<close>

fun isPromiseLike :: "jsval \<Rightarrow> bool" where
  "isPromiseLike (VPromise v) = True"
| "isPromiseLike (VRejected m) = True"
| "isPromiseLike v = False"

text \<open>\<^verbatim>\<open>v instanceof Factory\<close>, with the instance when it holds.\<close>

fun instanceofFactory :: "jsval \<Rightarrow> nat option" where
  "instanceofFactory (VFactory i) = Some i"
| "instanceofFactory v = None"

text \<open>
  \<^verbatim>\<open>await v\<close>: a value that is not promise-like is returned as it is, a rejection is
  thrown, and a fulfilled promise gives its value, itself awaited if it is promise-like.
\<close>

fun await :: "jsval \<Rightarrow> error + jsval" where
  "await (VPromise v) = await v"
| "await (VRejected m) = Inl (Thrown m)"
| "await v = Inr v"

text \<open>
  Modelled from the spec: \<open>expectContext\<close> (utils/expect-context.util) is not among the
  sources. A single-key entry is satisfied iff the context has that key present; a group
  entry is satisfied iff the context has all keys of the group present; the failure
  names the first unsatisfied entry.
\<close>

fun satisfied :: "obj \<Rightarrow> key_entry \<Rightarrow> bool" where
  "satisfied context (Key k) = (k \<in> set (map fst context))"
| "satisfied context (KeyGroup ks) = (\<forall>k \<in> set ks. k \<in> set (map fst context))"

fun expectContext :: "obj \<Rightarrow> key_entry list \<Rightarrow> error option" where
  "expectContext context [] = None"
| "expectContext context (k # ks) =
     (if satisfied context k then expectContext context ks
      else Some (MissingContextError k))"

section \<open>Persisting\<close>

text \<open>
  \<open>save\<close>: the seeding source must be set; its data source is initialized if it has
  not been yet; then the entity manager saves the entity, and what it returns is
  returned.
\<close>

definition save :: "env \<Rightarrow> factory \<Rightarrow> entity \<Rightarrow> obj option \<Rightarrow> state \<Rightarrow> entity outcome \<times> state" where
  "save E f e saveOptions s =
     (case seedingSource f of
        Inl err \<Rightarrow> (Throw err, s)
      | Inr ds \<Rightarrow>
          let s1 = (if ds \<in> set (initialized s) then s
                    else s\<lparr>initialized := ds # initialized s,
                           trace := trace s @ [Initialize ds]\<rparr>);
              s2 = s1\<lparr>trace := trace s1 @ [Save ds e saveOptions]\<rparr>
          in (case entityManager_save E ds (trace s1) e saveOptions of
                Inl err \<Rightarrow> (Throw err, s2)
              | Inr e' \<Rightarrow> (Return e', s2)))"

section \<open>Constructing one entity\<close>

text \<open>
  The loop \<^verbatim>\<open>for (const key in overrideParams) entity[key] = overrideParams[key]\<close>.
  Reading a property is \<open>map_of\<close>; assigning one keeps its place if the object has it
  and appends it otherwise.
\<close>

definition get :: "obj \<Rightarrow> string \<Rightarrow> jsval" where
  "get ob k = (case map_of ob k of Some v \<Rightarrow> v | None \<Rightarrow> VUndefined)"

text \<open>
  The keys that \<^verbatim>\<open>for (const key in ob)\<close> visits, each property once (a list that
  names a key twice reads as its first entry for that key): first the keys that are
  array indices, in ascending numeric order, then the other keys in the order in which
  the object got them. An array index is the decimal numeral, without a leading zero, of
  a number below \<open>2^32 - 1\<close>.
\<close>

definition digitValue :: "char \<Rightarrow> nat option" where
  "digitValue c = map_of (zip ''0123456789'' [0, 1, 2, 3, 4, 5, 6, 7, 8, 9]) c"

fun decimal :: "string \<Rightarrow> nat \<Rightarrow> nat option" where
  "decimal [] n = Some n"
| "decimal (c # cs) n =
     (case digitValue c of None \<Rightarrow> None | Some d \<Rightarrow> decimal cs (10 * n + d))"

definition arrayIndex :: "string \<Rightarrow> nat option" where
  "arrayIndex k =
     (case k of
        [] \<Rightarrow> None
      | c # cs \<Rightarrow>
          if c = CHR ''0'' \<and> cs \<noteq> [] then None
          else (case decimal k 0 of
                  None \<Rightarrow> None
                | Some n \<Rightarrow> if n < 4294967295 then Some n else None))"

definition indexOrder :: "string \<Rightarrow> nat" where
  "indexOrder k = (case arrayIndex k of None \<Rightarrow> 0 | Some n \<Rightarrow> n)"

definition forInKeys :: "obj \<Rightarrow> string list" where
  "forInKeys ob =
     (let own = rev (remdups (rev (map fst ob)))
      in sort_key indexOrder (filter (\<lambda>k. arrayIndex k \<noteq> None) own)
         @ filter (\<lambda>k. arrayIndex k = None) own)"

definition assignOverrides :: "entity \<Rightarrow> obj \<Rightarrow> entity" where
  "assignOverrides e overrideParams =
     foldl (\<lambda>acc key. AList.update key (get overrideParams key) acc) e (forInKeys overrideParams)"

text \<open>
  \<open>make\<close>, \<open>create\<close>, \<open>makeEntity\<close> and \<open>resolveEntity\<close> call each other.
  \<open>resolveAttributes\<close> is the loop of \<open>resolveEntity\<close> over the attributes that are
  still to be visited. A parameter left out by the caller, or given as
  \<^verbatim>\<open>undefined\<close>, takes its default: \<^verbatim>\<open>{}\<close> for \<open>overrideParams\<close> and \<open>context\<close>.
\<close>

function (sequential) make :: "env \<Rightarrow> nat \<Rightarrow> factory \<Rightarrow> obj \<Rightarrow> obj \<Rightarrow> state \<Rightarrow> entity outcome \<times> state"
and create :: "env \<Rightarrow> nat \<Rightarrow> factory \<Rightarrow> obj \<Rightarrow> obj \<Rightarrow> obj option \<Rightarrow> state \<Rightarrow> entity outcome \<times> state"
and makeEntity :: "env \<Rightarrow> nat \<Rightarrow> factory \<Rightarrow> obj \<Rightarrow> obj \<Rightarrow> bool \<Rightarrow> obj option \<Rightarrow> state \<Rightarrow> entity outcome \<times> state"
and resolveEntity :: "env \<Rightarrow> nat \<Rightarrow> entity \<Rightarrow> bool \<Rightarrow> obj option \<Rightarrow> state \<Rightarrow> entity outcome \<times> state"
and resolveAttributes :: "env \<Rightarrow> nat \<Rightarrow> string list \<Rightarrow> entity \<Rightarrow> bool \<Rightarrow> obj option \<Rightarrow> state \<Rightarrow> entity outcome \<times> state"
where
  "make E fuel f overrideParams context s =
     makeEntity E fuel f overrideParams context False None s"
| "create E fuel f overrideParams context saveOptions s =
     (case makeEntity E fuel f overrideParams context True saveOptions s of
        (Return e, s1) \<Rightarrow> save E f e saveOptions s1
      | (Throw err, s1) \<Rightarrow> (Throw err, s1)
      | (OutOfFuel, s1) \<Rightarrow> (OutOfFuel, s1))"
| "makeEntity E fuel f overrideParams context persist saveOptions s =
     (case (case requiredContextKeys f of
              None \<Rightarrow> None
            | Some keys \<Rightarrow> expectContext context keys) of
        Some err \<Rightarrow> (Throw err, s)
      | None \<Rightarrow>
          let s1 = s\<lparr>trace := trace s @ [EntityHook (entityClass f) context]\<rparr> in
          (case entity f (entityClass f) context of
             Inl err \<Rightarrow> (Throw err, s1)
           | Inr e0 \<Rightarrow>
               (case (case mapFunction f of
                        None \<Rightarrow> (Inr e0, s1)
                      | Some fn \<Rightarrow> (fn e0, s1\<lparr>trace := trace s1 @ [MapFunction e0]\<rparr>)) of
                  (Inl err, s2) \<Rightarrow> (Throw err, s2)
                | (Inr e1, s2) \<Rightarrow>
                    (case resolveEntity E fuel (assignOverrides e1 overrideParams)
                            persist saveOptions s2 of
                       (Return r, s3) \<Rightarrow>
                         let s4 = s3\<lparr>trace := trace s3 @ [Finalize r context]\<rparr> in
                         (case finalize f r context of
                            Inl err \<Rightarrow> (Throw err, s4)
                          | Inr r' \<Rightarrow> (Return r', s4))
                     | (Throw err, s3) \<Rightarrow> (Throw err, s3)
                     | (OutOfFuel, s3) \<Rightarrow> (OutOfFuel, s3)))))"
| "resolveEntity E fuel e persist saveOptions s =
     resolveAttributes E fuel (forInKeys e) e persist saveOptions s"
| "resolveAttributes E fuel [] e persist saveOptions s = (Return e, s)"
| "resolveAttributes E fuel (attribute # rest) e persist saveOptions s =
     (let attributeValue = get e attribute in
      (case (if isPromiseLike attributeValue
             then map_sum id (\<lambda>v. AList.update attribute v e) (await attributeValue)
             else Inr e) of
         Inl err \<Rightarrow> (Throw err, s)
       | Inr e1 \<Rightarrow>
           (case instanceofFactory attributeValue of
              Some i \<Rightarrow>
                (case fuel of
                   0 \<Rightarrow> (OutOfFuel, s)
                 | Suc fuel' \<Rightarrow>
                     (case (if persist
                            then create E fuel' (factories E i) []
                                   (case saveOptions of None \<Rightarrow> [] | Some so \<Rightarrow> so) None s
                            else make E fuel' (factories E i) [] [] s) of
                        (Return child, s1) \<Rightarrow>
                          resolveAttributes E fuel rest
                            (AList.update attribute (VObject child) e1) persist saveOptions s1
                      | (Throw err, s1) \<Rightarrow> (Throw err, s1)
                      | (OutOfFuel, s1) \<Rightarrow> (OutOfFuel, s1)))
            | None \<Rightarrow> resolveAttributes E fuel rest e1 persist saveOptions s)))"
  by pat_completeness auto

termination
  by (relation "inv_image (less_than <*lex*> less_than <*lex*> less_than)
        (\<lambda>x. case x of
           Inl (Inl (E, fuel, r)) \<Rightarrow> (fuel, 4::nat, 0::nat)
         | Inl (Inr (E, fuel, r)) \<Rightarrow> (fuel, 4, 0)
         | Inr (Inl (E, fuel, r)) \<Rightarrow> (fuel, 3, 0)
         | Inr (Inr (Inl (E, fuel, r))) \<Rightarrow> (fuel, 2, 0)
         | Inr (Inr (Inr (E, fuel, keys, r))) \<Rightarrow> (fuel, 1, length keys))")
     auto

section \<open>Constructing many entities\<close>

text \<open>
  The loop of \<open>makeMany\<close> and of \<open>createMany\<close>:
  \<^verbatim>\<open>for (let index = 0; index < amount; index++) list[index] = await op()\<close>.
  \<open>index\<close> is the length of \<open>list\<close> at every iteration, so the assignment appends.
  An amount is an integer here.
\<close>

function manyLoop ::
  "(state \<Rightarrow> 'a outcome \<times> state) \<Rightarrow> int \<Rightarrow> int \<Rightarrow> 'a list \<Rightarrow> state \<Rightarrow> 'a list outcome \<times> state"
where
  "manyLoop op amount index list s =
     (if index < amount
      then (case op s of
              (Return x, s1) \<Rightarrow> manyLoop op amount (index + 1) (list @ [x]) s1
            | (Throw err, s1) \<Rightarrow> (Throw err, s1)
            | (OutOfFuel, s1) \<Rightarrow> (OutOfFuel, s1))
      else (Return list, s))"
  by pat_completeness auto

termination
  by (relation "measure (\<lambda>(op, amount, index, list, s). nat (amount - index))") auto

definition makeMany ::
  "env \<Rightarrow> nat \<Rightarrow> factory \<Rightarrow> int \<Rightarrow> obj \<Rightarrow> obj \<Rightarrow> state \<Rightarrow> entity list outcome \<times> state"
where
  "makeMany E fuel f amount overrideParams context s =
     manyLoop (make E fuel f overrideParams context) amount 0 [] s"

definition createMany ::
  "env \<Rightarrow> nat \<Rightarrow> factory \<Rightarrow> int \<Rightarrow> obj \<Rightarrow> obj \<Rightarrow> obj option \<Rightarrow> state
     \<Rightarrow> entity list outcome \<times> state"
where
  "createMany E fuel f amount overrideParams context saveOptions s =
     manyLoop (create E fuel f overrideParams context saveOptions) amount 0 [] s"

section \<open>Notions used to state the properties\<close>

text \<open>
  Running an operation \<open>n\<close> times one after the other, each run starting in the state
  the run before it left, and collecting the results in the order of the runs; the
  first run that does not return ends the sequence with its outcome.
\<close>

primrec sequentially ::
  "nat \<Rightarrow> (state \<Rightarrow> 'a outcome \<times> state) \<Rightarrow> state \<Rightarrow> 'a list outcome \<times> state"
where
  "sequentially 0 op s = (Return [], s)"
| "sequentially (Suc n) op s =
     (case op s of
        (Return x, s1) \<Rightarrow>
          (case sequentially n op s1 of
             (Return xs, s2) \<Rightarrow> (Return (x # xs), s2)
           | (Throw err, s2) \<Rightarrow> (Throw err, s2)
           | (OutOfFuel, s2) \<Rightarrow> (OutOfFuel, s2))
      | (Throw err, s1) \<Rightarrow> (Throw err, s1)
      | (OutOfFuel, s1) \<Rightarrow> (OutOfFuel, s1))"


text \<open>A state \<open>s'\<close> that has the events of \<open>s\<close> and, after them, possibly more.\<close>

definition extends :: "state \<Rightarrow> state \<Rightarrow> bool" where
  "extends s s' = (\<exists>evs. trace s' = trace s @ evs)"

text \<open>The events that are calls on the persistence collaborator.\<close>

fun persistenceEvent :: "event \<Rightarrow> bool" where
  "persistenceEvent (Initialize ds) = True"
| "persistenceEvent (Save ds e saveOptions) = True"
| "persistenceEvent ev = False"

text \<open>
  What the entity hook followed by the map function produces (steps 3 and 4 of a
  construction), as a value.
\<close>

definition hookThenMap :: "factory \<Rightarrow> obj \<Rightarrow> error + entity" where
  "hookThenMap f context =
     (case entity f (entityClass f) context of
        Inl err \<Rightarrow> Inl err
      | Inr e0 \<Rightarrow> (case mapFunction f of None \<Rightarrow> Inr e0 | Some fn \<Rightarrow> fn e0))"

text \<open>
  A state \<open>s'\<close> reached from \<open>s\<close> without any call on the persistence collaborator:
  the same data sources are initialized, and the events added are not persistence
  events.
\<close>

definition quiet :: "state \<Rightarrow> state \<Rightarrow> bool" where
  "quiet s s' =
     (initialized s' = initialized s \<and>
      (\<exists>evs. trace s' = trace s @ evs \<and> filter persistenceEvent evs = []))"

section \<open>The construction in phases\<close>

text \<open>
  To reason about \<open>makeEntity\<close> and \<open>resolveEntity\<close> their bodies are cut into phases,
  chained by \<open>andThen\<close>: the next phase runs if the one before returned, and a thrown
  error (or the lack of fuel) ends the call. The lemmas \<open>makeEntity_phases\<close>,
  \<open>create_phases\<close> and \<open>resolveAttributes_Cons\<close> below prove that the functions above
  are these chains.
\<close>

definition andThen ::
  "'a outcome \<times> state \<Rightarrow> ('a \<Rightarrow> state \<Rightarrow> 'b outcome \<times> state) \<Rightarrow> 'b outcome \<times> state"
where
  "andThen r k =
     (case r of
        (Return x, s) \<Rightarrow> k x s
      | (Throw err, s) \<Rightarrow> (Throw err, s)
      | (OutOfFuel, s) \<Rightarrow> (OutOfFuel, s))"

text \<open>Step 1: the failure of the validation of the context, if it fails.\<close>

definition contextFailure :: "factory \<Rightarrow> obj \<Rightarrow> error option" where
  "contextFailure f context =
     (case requiredContextKeys f of
        None \<Rightarrow> None
      | Some ks \<Rightarrow> expectContext context ks)"

text \<open>Steps 1 to 5: validation, entity hook, map function, overrides.\<close>

definition beforeResolve :: "factory \<Rightarrow> obj \<Rightarrow> obj \<Rightarrow> state \<Rightarrow> entity outcome \<times> state" where
  "beforeResolve f overrideParams context s =
     (case contextFailure f context of
        Some err \<Rightarrow> (Throw err, s)
      | None \<Rightarrow>
          (case entity f (entityClass f) context of
             Inl err \<Rightarrow>
               (Throw err, s\<lparr>trace := trace s @ [EntityHook (entityClass f) context]\<rparr>)
           | Inr e0 \<Rightarrow>
               (case mapFunction f of
                  None \<Rightarrow>
                    (Return (assignOverrides e0 overrideParams),
                     s\<lparr>trace := trace s @ [EntityHook (entityClass f) context]\<rparr>)
                | Some fn \<Rightarrow>
                    (case fn e0 of
                       Inl err \<Rightarrow>
                         (Throw err,
                          s\<lparr>trace := trace s @
                               [EntityHook (entityClass f) context, MapFunction e0]\<rparr>)
                     | Inr e1 \<Rightarrow>
                         (Return (assignOverrides e1 overrideParams),
                          s\<lparr>trace := trace s @
                               [EntityHook (entityClass f) context, MapFunction e0]\<rparr>)))))"

text \<open>Step 8: the finalize hook on the resolved entity.\<close>

definition afterResolve :: "factory \<Rightarrow> obj \<Rightarrow> entity \<Rightarrow> state \<Rightarrow> entity outcome \<times> state" where
  "afterResolve f context r s =
     (case finalize f r context of
        Inl err \<Rightarrow> (Throw err, s\<lparr>trace := trace s @ [Finalize r context]\<rparr>)
      | Inr r' \<Rightarrow> (Return r', s\<lparr>trace := trace s @ [Finalize r context]\<rparr>))"

text \<open>The first \<^verbatim>\<open>if\<close> of the loop of \<open>resolveEntity\<close>, on one attribute.\<close>

definition awaitAttribute :: "entity \<Rightarrow> string \<Rightarrow> state \<Rightarrow> entity outcome \<times> state" where
  "awaitAttribute e attribute s =
     (if isPromiseLike (get e attribute)
      then (case await (get e attribute) of
              Inl err \<Rightarrow> (Throw err, s)
            | Inr v \<Rightarrow> (Return (AList.update attribute v e), s))
      else (Return e, s))"

text \<open>The call on the nested factory in the second \<^verbatim>\<open>if\<close> of that loop.\<close>

definition nestedCall ::
  "env \<Rightarrow> nat \<Rightarrow> nat \<Rightarrow> bool \<Rightarrow> obj option \<Rightarrow> state \<Rightarrow> entity outcome \<times> state"
where
  "nestedCall E fuel i persist saveOptions s =
     (case fuel of
        0 \<Rightarrow> (OutOfFuel, s)
      | Suc fuel' \<Rightarrow>
          if persist
          then create E fuel' (factories E i) []
                 (case saveOptions of None \<Rightarrow> [] | Some so \<Rightarrow> so) None s
          else make E fuel' (factories E i) [] [] s)"

text \<open>
  What the loop of \<open>resolveEntity\<close>, run from state \<open>s\<close> to state \<open>s'\<close>, makes of an
  attribute that holds \<open>v\<close>: the value \<open>v\<close> settles to when it is promise-like; when it
  is a factory instance, the entity that the call on that nested factory returned, a
  call made between \<open>s\<close> and \<open>s'\<close>; and \<open>v\<close> itself otherwise.
\<close>

definition resolvedTo ::
  "env \<Rightarrow> nat \<Rightarrow> bool \<Rightarrow> obj option \<Rightarrow> state \<Rightarrow> state \<Rightarrow> jsval \<Rightarrow> jsval \<Rightarrow> bool"
where
  "resolvedTo E fuel persist saveOptions s s' v w =
     (if isPromiseLike v then await v = Inr w
      else (case instanceofFactory v of
              None \<Rightarrow> w = v
            | Some i \<Rightarrow>
                (\<exists>child sa sb.
                    extends s sa \<and> extends sb s'
                  \<and> nestedCall E fuel i persist saveOptions sa = (Return child, sb)
                  \<and> w = VObject child)))"

section \<open>The factories of the tests\<close>

text \<open>
  \<open>User{id, name}\<close> with a factory that generates the name, and \<open>Pet{owner}\<close> with a
  factory whose owner is the user factory (instance 0 of the environment). The entity
  manager of the example assigns an id on save. \<open>tenantFactory\<close> configures no entity
  class, inherits the \<open>entity\<close> method and requires the context key \<open>tenant\<close>;
  \<open>bareFactory\<close> is the same without a required key, and \<open>classlessFactory\<close> is
  \<open>bareFactory\<close> constructed with an entity class among its option overrides.
  \<open>configuredTwice\<close> is the user factory constructed with an entity class and required
  context keys among its option overrides. \<open>strictFactory\<close> is a user factory whose
  definition requires no context key and which is constructed with the required key
  \<open>tenant\<close> among its option overrides.
\<close>

definition userFactory :: factory where
  "userFactory =
     \<lparr> options = \<lparr> opt_entity = Some [(''id'', VUndefined), (''name'', VUndefined)],
                   opt_requiredContextKeys = None \<rparr>,
       optionOverrides = \<lparr> opt_entity = None, opt_requiredContextKeys = None,
                           opt_seedingSource = Some 0 \<rparr>,
       mapFunction = None,
       entity_override = Some (\<lambda>e context.
          case e of Some u \<Rightarrow> Inr (AList.update ''name'' (VString ''Jane'') u)
                  | None \<Rightarrow> Inl (Thrown ''no instance'')),
       finalize_override = None \<rparr>"

definition petFactory :: factory where
  "petFactory =
     \<lparr> options = \<lparr> opt_entity = Some [(''owner'', VUndefined)],
                   opt_requiredContextKeys = None \<rparr>,
       optionOverrides = \<lparr> opt_entity = None, opt_requiredContextKeys = None,
                           opt_seedingSource = Some 0 \<rparr>,
       mapFunction = None,
       entity_override = Some (\<lambda>e context.
          case e of Some p \<Rightarrow> Inr (AList.update ''owner'' (VFactory 0) p)
                  | None \<Rightarrow> Inl (Thrown ''no instance'')),
       finalize_override = None \<rparr>"

definition tenantFactory :: factory where
  "tenantFactory =
     \<lparr> options = \<lparr> opt_entity = None, opt_requiredContextKeys = Some [Key ''tenant''] \<rparr>,
       optionOverrides = \<lparr> opt_entity = None, opt_requiredContextKeys = None,
                           opt_seedingSource = Some 0 \<rparr>,
       mapFunction = None,
       entity_override = None,
       finalize_override = None \<rparr>"

definition bareFactory :: factory where
  "bareFactory =
     \<lparr> options = \<lparr> opt_entity = None, opt_requiredContextKeys = None \<rparr>,
       optionOverrides = \<lparr> opt_entity = None, opt_requiredContextKeys = None,
                           opt_seedingSource = Some 0 \<rparr>,
       mapFunction = None,
       entity_override = None,
       finalize_override = None \<rparr>"

definition classlessFactory :: factory where
  "classlessFactory =
     bareFactory\<lparr> optionOverrides :=
       \<lparr> opt_entity = Some [(''id'', VUndefined)], opt_requiredContextKeys = None,
         opt_seedingSource = Some 0 \<rparr> \<rparr>"

definition configuredTwice :: factory where
  "configuredTwice =
     userFactory\<lparr> optionOverrides :=
       \<lparr> opt_entity = Some [(''id'', VNumber 7)], opt_requiredContextKeys = Some [],
         opt_seedingSource = Some 0 \<rparr> \<rparr>"

definition strictFactory :: factory where
  "strictFactory =
     userFactory\<lparr> options :=
       \<lparr> opt_entity = Some [(''id'', VUndefined), (''name'', VUndefined)],
         opt_requiredContextKeys = Some [] \<rparr>,
                  optionOverrides :=
       \<lparr> opt_entity = None, opt_requiredContextKeys = Some [Key ''tenant''],
         opt_seedingSource = Some 0 \<rparr> \<rparr>"

definition testEnv :: env where
  "testEnv =
     \<lparr> factories = (\<lambda>i. userFactory),
       entityManager_save = (\<lambda>ds tr e saveOptions.
          Inr (AList.update ''id'' (VNumber (int (length tr))) e)) \<rparr>"

definition freshState :: state where
  "freshState = \<lparr> initialized = [], trace = [] \<rparr>"

section \<open>Lemmas\<close>

declare make.simps [simp del] create.simps [simp del] makeEntity.simps [simp del]
  resolveEntity.simps [simp del] resolveAttributes.simps [simp del] manyLoop.simps [simp del]

text \<open>The equations that evaluate a call on given factories.\<close>

lemmas evaluation =
  make.simps create.simps makeEntity.simps resolveEntity.simps resolveAttributes.simps
  save_def seedingSource_def requiredContextKeys_def entityClass_def entity_def finalize_def
  get_def forInKeys_def arrayIndex_def indexOrder_def digitValue_def assignOverrides_def
  Let_def
  userFactory_def petFactory_def tenantFactory_def bareFactory_def classlessFactory_def
  configuredTwice_def strictFactory_def testEnv_def freshState_def hookThenMap_def

subsection \<open>The functions as chains of phases\<close>

lemma makeEntity_phases:
  "makeEntity E fuel f overrideParams context persist saveOptions s =
     andThen (beforeResolve f overrideParams context s)
       (\<lambda>e2 s2. andThen (resolveEntity E fuel e2 persist saveOptions s2)
          (\<lambda>r s3. afterResolve f context r s3))"
  by (simp add: makeEntity.simps andThen_def beforeResolve_def afterResolve_def
        contextFailure_def Let_def
        split: option.splits sum.splits prod.splits outcome.splits)

lemma create_phases:
  "create E fuel f overrideParams context saveOptions s =
     andThen (makeEntity E fuel f overrideParams context True saveOptions s)
       (\<lambda>e s1. save E f e saveOptions s1)"
  by (simp add: create.simps andThen_def split: prod.splits outcome.splits)

lemma resolveAttributes_Nil:
  "resolveAttributes E fuel [] e persist saveOptions s = (Return e, s)"
  by (simp add: resolveAttributes.simps)

lemma resolveAttributes_Cons:
  "resolveAttributes E fuel (a # rest) e persist saveOptions s =
     andThen (awaitAttribute e a s)
       (\<lambda>e1 s0. case instanceofFactory (get e a) of
            None \<Rightarrow> resolveAttributes E fuel rest e1 persist saveOptions s0
          | Some i \<Rightarrow>
              andThen (nestedCall E fuel i persist saveOptions s0)
                (\<lambda>child s1. resolveAttributes E fuel rest
                     (AList.update a (VObject child) e1) persist saveOptions s1))"
  by (simp add: resolveAttributes.simps andThen_def awaitAttribute_def nestedCall_def Let_def
        split: option.splits sum.splits prod.splits outcome.splits nat.splits)

lemma andThen_Return:
  "andThen r k = (Return y, s') \<longleftrightarrow> (\<exists>x s1. r = (Return x, s1) \<and> k x s1 = (Return y, s'))"
  by (auto simp: andThen_def split: prod.splits outcome.splits)

lemma awaitAttribute_state: "snd (awaitAttribute e a s) = s"
  by (simp add: awaitAttribute_def split: sum.splits)

subsection \<open>The loop of makeMany and createMany\<close>

lemma manyLoop_sequentially:
  "manyLoop op amount index list s =
     (case sequentially (nat (amount - index)) op s of
        (Return xs, s') \<Rightarrow> (Return (list @ xs), s')
      | (Throw err, s') \<Rightarrow> (Throw err, s')
      | (OutOfFuel, s') \<Rightarrow> (OutOfFuel, s'))"
proof (induction op amount index list s rule: manyLoop.induct)
  case (1 op amount index list s)
  show ?case
  proof (cases "index < amount")
    case False
    then show ?thesis by (simp add: manyLoop.simps[of op amount index])
  next
    case True
    then have n: "nat (amount - index) = Suc (nat (amount - (index + 1)))" by simp
    show ?thesis
      using True 1
      apply (subst manyLoop.simps)
      apply (simp only: n sequentially.simps)
      apply (auto split: prod.splits outcome.splits)
      done
  qed
qed

lemma manyLoop_from_start:
  "manyLoop op amount 0 [] s = sequentially (nat amount) op s"
proof -
  obtain out s' where r: "sequentially (nat amount) op s = (out, s')"
    by (cases "sequentially (nat amount) op s")
  show ?thesis
    by (cases out) (simp_all add: manyLoop_sequentially r)
qed

lemma sequentially_length:
  "sequentially n op s = (Return xs, s') \<Longrightarrow> length xs = n"
  by (induction n arbitrary: s xs s') (auto split: prod.splits outcome.splits)

subsection \<open>Validation of the context\<close>

lemma expectContext_Some:
  "entry \<in> set ks \<Longrightarrow> \<not> satisfied context entry \<Longrightarrow>
   \<exists>missing. expectContext context ks = Some (MissingContextError missing)
     \<and> missing \<in> set ks \<and> \<not> satisfied context missing"
  by (induction ks) auto

subsection \<open>Calls that leave the persistence collaborator alone\<close>

lemma quiet_refl: "quiet s s"
  by (simp add: quiet_def)

lemma quiet_trans: "quiet s s1 \<Longrightarrow> quiet s1 s2 \<Longrightarrow> quiet s s2"
  by (auto simp: quiet_def)

lemma quiet_andThen:
  assumes "quiet s (snd r)" and "\<And>x s1. r = (Return x, s1) \<Longrightarrow> quiet s1 (snd (k x s1))"
  shows "quiet s (snd (andThen r k))"
proof (cases r)
  case (Pair out s1)
  then show ?thesis
    using assms by (cases out) (auto simp: andThen_def intro: quiet_trans)
qed

lemma quiet_beforeResolve: "quiet s (snd (beforeResolve f overrideParams context s))"
  by (simp add: beforeResolve_def quiet_def split: option.splits sum.splits)

lemma quiet_afterResolve: "quiet s (snd (afterResolve f context r s))"
  by (simp add: afterResolve_def quiet_def split: sum.splits)

lemma quiet_resolveAttributes:
  assumes nested: "\<And>i s. quiet s (snd (nestedCall E fuel i False saveOptions s))"
  shows "quiet s (snd (resolveAttributes E fuel ks e False saveOptions s))"
proof (induction ks arbitrary: e s)
  case Nil
  show ?case by (simp add: resolveAttributes_Nil quiet_refl)
next
  case (Cons a ks)
  show ?case
    unfolding resolveAttributes_Cons
  proof (rule quiet_andThen)
    show "quiet s (snd (awaitAttribute e a s))"
      by (simp add: awaitAttribute_state quiet_refl)
  next
    fix e1 s0
    show "quiet s0 (snd (case instanceofFactory (get e a) of
            None \<Rightarrow> resolveAttributes E fuel ks e1 False saveOptions s0
          | Some i \<Rightarrow>
              andThen (nestedCall E fuel i False saveOptions s0)
                (\<lambda>child s1. resolveAttributes E fuel ks
                     (AList.update a (VObject child) e1) False saveOptions s1)))"
      by (cases "instanceofFactory (get e a)")
         (auto intro!: quiet_andThen Cons.IH nested)
  qed
qed

lemma quiet_makeEntity:
  assumes "\<And>i s so. quiet s (snd (nestedCall E fuel i False so s))"
  shows "quiet s (snd (makeEntity E fuel f overrideParams context False saveOptions s))"
  unfolding makeEntity_phases resolveEntity.simps
  by (intro quiet_andThen quiet_beforeResolve quiet_afterResolve quiet_resolveAttributes assms)

lemma quiet_make: "quiet s (snd (make E fuel f overrideParams context s))"
proof (induction fuel arbitrary: f overrideParams "context" s)
  case 0
  show ?case
    unfolding make.simps
    by (rule quiet_makeEntity) (simp add: nestedCall_def quiet_refl)
next
  case (Suc n)
  show ?case
    unfolding make.simps
    by (rule quiet_makeEntity) (simp add: nestedCall_def Suc.IH)
qed

subsection \<open>Calls only add events\<close>

lemma extends_refl: "extends s s"
  by (simp add: extends_def)

lemma extends_trans: "extends s s1 \<Longrightarrow> extends s1 s2 \<Longrightarrow> extends s s2"
  by (auto simp: extends_def)

lemma extends_andThen_snd:
  assumes "\<And>x s1. r = (Return x, s1) \<Longrightarrow> extends s1 (snd (k x s1))"
  shows "extends (snd r) (snd (andThen r k))"
proof (cases r)
  case (Pair out s1)
  then show ?thesis
    using assms by (cases out) (auto simp: andThen_def extends_refl)
qed

lemma extends_andThen:
  assumes "extends s (snd r)" and "\<And>x s1. r = (Return x, s1) \<Longrightarrow> extends s1 (snd (k x s1))"
  shows "extends s (snd (andThen r k))"
  using assms(1) extends_andThen_snd[of r k, OF assms(2)] by (rule extends_trans)

lemma extends_beforeResolve: "extends s (snd (beforeResolve f overrideParams context s))"
  by (simp add: beforeResolve_def extends_def split: option.splits sum.splits)

lemma extends_afterResolve: "extends s (snd (afterResolve f context r s))"
  by (simp add: afterResolve_def extends_def split: sum.splits)

lemma extends_save: "extends s (snd (save E f e saveOptions s))"
  by (simp add: save_def extends_def Let_def split: sum.splits)

lemma extends_resolveAttributes_if:
  assumes nested: "\<And>i s. extends s (snd (nestedCall E fuel i persist saveOptions s))"
  shows "extends s (snd (resolveAttributes E fuel ks e persist saveOptions s))"
proof (induction ks arbitrary: e s)
  case Nil
  show ?case by (simp add: resolveAttributes_Nil extends_refl)
next
  case (Cons a ks)
  show ?case
    unfolding resolveAttributes_Cons
  proof (rule extends_andThen)
    show "extends s (snd (awaitAttribute e a s))"
      by (simp add: awaitAttribute_state extends_refl)
  next
    fix e1 s0
    show "extends s0 (snd (case instanceofFactory (get e a) of
            None \<Rightarrow> resolveAttributes E fuel ks e1 persist saveOptions s0
          | Some i \<Rightarrow>
              andThen (nestedCall E fuel i persist saveOptions s0)
                (\<lambda>child s1. resolveAttributes E fuel ks
                     (AList.update a (VObject child) e1) persist saveOptions s1)))"
      by (cases "instanceofFactory (get e a)")
         (auto intro!: extends_andThen Cons.IH nested)
  qed
qed

lemma extends_makeEntity_if:
  assumes "\<And>i s. extends s (snd (nestedCall E fuel i persist saveOptions s))"
  shows "extends s (snd (makeEntity E fuel f overrideParams context persist saveOptions s))"
  unfolding makeEntity_phases resolveEntity.simps
  by (intro extends_andThen extends_beforeResolve extends_afterResolve
        extends_resolveAttributes_if assms)

lemma extends_makeEntity:
  "extends s (snd (makeEntity E fuel f overrideParams context persist saveOptions s))"
proof (induction fuel arbitrary: f overrideParams "context" persist saveOptions s)
  case 0
  show ?case
    by (rule extends_makeEntity_if) (simp add: nestedCall_def extends_refl)
next
  case (Suc n)
  show ?case
  proof (rule extends_makeEntity_if)
    fix i s
    show "extends s (snd (nestedCall E (Suc n) i persist saveOptions s))"
      by (auto simp: nestedCall_def make.simps create_phases
            intro!: extends_andThen Suc.IH extends_save)
  qed
qed

lemma extends_make: "extends s (snd (make E fuel f overrideParams context s))"
  by (simp add: make.simps extends_makeEntity)

lemma extends_create: "extends s (snd (create E fuel f overrideParams context saveOptions s))"
  unfolding create_phases
  by (intro extends_andThen extends_makeEntity extends_save)

lemma extends_nestedCall: "extends s (snd (nestedCall E fuel i persist saveOptions s))"
  by (simp add: nestedCall_def extends_refl extends_make extends_create split: nat.splits)

lemma extends_resolveAttributes:
  "extends s (snd (resolveAttributes E fuel ks e persist saveOptions s))"
  by (rule extends_resolveAttributes_if) (rule extends_nestedCall)

lemma extends_resolveEntity:
  "extends s (snd (resolveEntity E fuel e persist saveOptions s))"
  by (simp add: resolveEntity.simps extends_resolveAttributes)

text \<open>
  When the validation of the context passes, the first event of a construction is the
  invocation of the entity hook, with the instance of the entity class of the factory.
\<close>

lemma beforeResolve_first_event:
  "contextFailure f context = None \<Longrightarrow>
     \<exists>evs. trace (snd (beforeResolve f overrideParams context s))
             = trace s @ EntityHook (entityClass f) context # evs"
  by (simp add: beforeResolve_def split: option.splits sum.splits)

lemma makeEntity_first_event:
  assumes "contextFailure f context = None"
  shows "\<exists>evs. trace (snd (makeEntity E fuel f overrideParams context persist saveOptions s))
             = trace s @ EntityHook (entityClass f) context # evs"
proof -
  from beforeResolve_first_event[OF assms] obtain evs where
    b: "trace (snd (beforeResolve f overrideParams context s))
          = trace s @ EntityHook (entityClass f) context # evs" by blast
  have "extends (snd (beforeResolve f overrideParams context s))
          (snd (makeEntity E fuel f overrideParams context persist saveOptions s))"
    unfolding makeEntity_phases
    by (intro extends_andThen_snd extends_andThen extends_resolveEntity extends_afterResolve)
  with b show ?thesis by (auto simp: extends_def)
qed

lemma create_first_event:
  assumes "contextFailure f context = None"
  shows "\<exists>evs. trace (snd (create E fuel f overrideParams context saveOptions s))
             = trace s @ EntityHook (entityClass f) context # evs"
proof -
  from makeEntity_first_event[OF assms] obtain evs where
    m: "trace (snd (makeEntity E fuel f overrideParams context True saveOptions s))
          = trace s @ EntityHook (entityClass f) context # evs" by blast
  have "extends (snd (makeEntity E fuel f overrideParams context True saveOptions s))
          (snd (create E fuel f overrideParams context saveOptions s))"
    unfolding create_phases by (intro extends_andThen_snd extends_save)
  with m show ?thesis by (auto simp: extends_def)
qed

lemma make_first_event:
  "contextFailure f context = None \<Longrightarrow>
     \<exists>evs. trace (snd (make E fuel f overrideParams context s))
             = trace s @ EntityHook (entityClass f) context # evs"
  by (simp add: make.simps makeEntity_first_event)

lemma makeEntity_validation_fails:
  "contextFailure f context = Some err \<Longrightarrow>
     makeEntity E fuel f overrideParams context persist saveOptions s = (Throw err, s)"
  by (simp add: makeEntity_phases beforeResolve_def andThen_def)

lemma make_validation_fails:
  "contextFailure f context = Some err \<Longrightarrow>
     make E fuel f overrideParams context s = (Throw err, s)"
  by (simp add: make.simps makeEntity_validation_fails)

lemma create_validation_fails:
  "contextFailure f context = Some err \<Longrightarrow>
     create E fuel f overrideParams context saveOptions s = (Throw err, s)"
  by (simp add: create_phases makeEntity_validation_fails andThen_def)

subsection \<open>Reading and assigning attributes\<close>

lemma await_not_promiseLike: "await p = Inr v \<Longrightarrow> \<not> isPromiseLike v"
  by (induction p rule: await.induct) auto

lemma promiseLike_not_factory: "isPromiseLike v \<Longrightarrow> instanceofFactory v = None"
  by (cases v) auto

lemma forInKeys_array_indices_first:
  "forInKeys [(''b'', v1), (''10'', v2), (''01'', v3), (''2'', v4), (''b'', v5), (''0'', v6)]
     = [''0'', ''2'', ''10'', ''b'', ''01'']"
  by (simp add: forInKeys_def arrayIndex_def indexOrder_def digitValue_def Let_def)

lemma distinct_forInKeys: "distinct (forInKeys ob)"
  by (auto simp: forInKeys_def Let_def)

lemma set_forInKeys: "set (forInKeys ob) = fst ` set ob"
  by (auto simp: forInKeys_def Let_def)

lemma map_of_update:
  "map_of (AList.update k v al) k' = (if k' = k then Some v else map_of al k')"
  by (simp add: update_conv')



subsection \<open>What resolution leaves in each attribute\<close>

lemma awaitAttribute_Return:
  "awaitAttribute e a s = (Return e1, s0) \<Longrightarrow>
     s0 = s \<and> (if isPromiseLike (get e a)
               then (\<exists>w. await (get e a) = Inr w \<and> e1 = AList.update a w e)
               else e1 = e)"
  by (auto simp: awaitAttribute_def split: if_splits sum.splits)

lemma resolvedTo_widen:
  assumes "resolvedTo E fuel persist saveOptions s1 s2 v w" "extends s s1" "extends s2 s'"
  shows "resolvedTo E fuel persist saveOptions s s' v w"
  using assms
  by (auto simp: resolvedTo_def split: if_splits option.splits intro: extends_trans)

lemma resolveAttributes_lookup:
  assumes "resolveAttributes E fuel ks e persist saveOptions s = (Return r, s')"
    and "distinct ks"
  shows "(k \<notin> set ks \<longrightarrow> map_of r k = map_of e k)
       \<and> (k \<in> set ks \<longrightarrow>
            (\<forall>v. map_of e k = Some v \<longrightarrow>
               (\<exists>w. map_of r k = Some w
                  \<and> resolvedTo E fuel persist saveOptions s s' v w)))"
  using assms
proof (induction ks arbitrary: e s)
  case Nil
  then show ?case by (simp add: resolveAttributes_Nil)
next
  case (Cons a ks)
  from Cons.prems(1) obtain e1 s0 where
    aw: "awaitAttribute e a s = (Return e1, s0)" and
    rest: "(case instanceofFactory (get e a) of
            None \<Rightarrow> resolveAttributes E fuel ks e1 persist saveOptions s0
          | Some i \<Rightarrow>
              andThen (nestedCall E fuel i persist saveOptions s0)
                (\<lambda>child s1. resolveAttributes E fuel ks
                     (AList.update a (VObject child) e1) persist saveOptions s1))
           = (Return r, s')"
    unfolding resolveAttributes_Cons andThen_Return by blast
  from Cons.prems(2) have d: "distinct ks" and a: "a \<notin> set ks" by auto
  from awaitAttribute_Return[OF aw] have s0: "s0 = s" and
    e1: "if isPromiseLike (get e a)
         then (\<exists>w. await (get e a) = Inr w \<and> e1 = AList.update a w e)
         else e1 = e"
    by simp_all
  obtain e2 s2 where
    rec: "resolveAttributes E fuel ks e2 persist saveOptions s2 = (Return r, s')" and
    e2: "(instanceofFactory (get e a) = None \<and> e2 = e1 \<and> s2 = s) \<or>
         (\<exists>i child. instanceofFactory (get e a) = Some i
            \<and> nestedCall E fuel i persist saveOptions s = (Return child, s2)
            \<and> e2 = AList.update a (VObject child) e1)"
    using rest s0 by (cases "instanceofFactory (get e a)") (auto simp: andThen_Return)
  note IH = Cons.IH[OF rec d]
  have s_s2: "extends s s2"
  proof -
    have "extends s s2"
      if "nestedCall E fuel i persist saveOptions s = (Return child, s2)" for i child
      using extends_nestedCall[of s E fuel i persist saveOptions] that by simp
    with e2 show ?thesis by (auto simp: extends_refl)
  qed
  have s2_s': "extends s2 s'"
    using extends_resolveAttributes[of s2 E fuel ks e2 persist saveOptions] rec by simp
  have other: "k' \<noteq> a \<Longrightarrow> map_of e2 k' = map_of e k'" for k'
    using e1 e2 by (auto simp: map_of_update split: if_splits)
  have at_a: "\<exists>w. map_of e2 a = Some w \<and> resolvedTo E fuel persist saveOptions s s' v w"
    if v: "map_of e a = Some v" for v
  proof -
    from v have g: "get e a = v" by (simp add: get_def)
    show ?thesis
    proof (cases "isPromiseLike v")
      case True
      then have "instanceofFactory v = None" by (rule promiseLike_not_factory)
      with True e1 e2 g show ?thesis
        by (auto simp: map_of_update resolvedTo_def)
    next
      case False
      with e1 g have e1e: "e1 = e" by simp
      show ?thesis
      proof (cases "instanceofFactory v")
        case None
        with False e2 g e1e v show ?thesis by (auto simp: resolvedTo_def)
      next
        case (Some i)
        with e2 g obtain child where
          n: "nestedCall E fuel i persist saveOptions s = (Return child, s2)" and
          u: "e2 = AList.update a (VObject child) e1" by auto
        have "resolvedTo E fuel persist saveOptions s s' v (VObject child)"
          using False Some n s2_s' extends_refl[of s]
          by (auto simp: resolvedTo_def)
        with u show ?thesis by (simp add: map_of_update)
      qed
    qed
  qed
  show ?case
  proof (cases "k = a")
    case True
    with a IH at_a show ?thesis by auto
  next
    case False
    have "\<exists>w. map_of r k = Some w \<and> resolvedTo E fuel persist saveOptions s s' v w"
      if "k \<in> set ks" "map_of e k = Some v" for v
    proof -
      from that other[OF False] have "map_of e2 k = Some v" by simp
      with IH that(1) obtain w where
        w: "map_of r k = Some w" "resolvedTo E fuel persist saveOptions s2 s' v w" by blast
      from resolvedTo_widen[OF w(2) s_s2 extends_refl] w(1) show ?thesis by blast
    qed
    with False IH other[of k] show ?thesis by auto
  qed
qed

lemma resolveEntity_lookup:
  assumes "resolveEntity E fuel e persist saveOptions s = (Return r, s')"
  shows "map_of e k = None \<Longrightarrow> map_of r k = None"
    and "map_of e k = Some v \<Longrightarrow>
           \<exists>w. map_of r k = Some w \<and> resolvedTo E fuel persist saveOptions s s' v w"
proof -
  from assms have
    r: "resolveAttributes E fuel (forInKeys e) e persist saveOptions s = (Return r, s')"
    by (simp add: resolveEntity.simps)
  note L = resolveAttributes_lookup[OF r distinct_forInKeys, of k]
  show "map_of e k = None \<Longrightarrow> map_of r k = None"
    using L by (auto simp: set_forInKeys map_of_eq_None_iff)
  show "map_of e k = Some v \<Longrightarrow>
           \<exists>w. map_of r k = Some w \<and> resolvedTo E fuel persist saveOptions s s' v w"
    using L
    by (cases "k \<in> set (forInKeys e)")
       (auto simp: set_forInKeys dest: map_of_SomeD intro: rev_image_eqI)
qed



subsection \<open>A construction that returns\<close>

lemma afterResolve_Return:
  "afterResolve f context r s = (Return e, s') \<longleftrightarrow>
     finalize f r context = Inr e \<and> s' = s\<lparr>trace := trace s @ [Finalize r context]\<rparr>"
  by (auto simp: afterResolve_def split: sum.splits)

lemma makeEntity_Return:
  assumes "makeEntity E fuel f overrideParams context persist saveOptions s = (Return e, s')"
  shows "\<exists>e2 s2 r s3. beforeResolve f overrideParams context s = (Return e2, s2)
     \<and> resolveEntity E fuel e2 persist saveOptions s2 = (Return r, s3)
     \<and> finalize f r context = Inr e
     \<and> s' = s3\<lparr>trace := trace s3 @ [Finalize r context]\<rparr>"
  using assms unfolding makeEntity_phases andThen_Return afterResolve_Return
  by blast

lemma beforeResolve_Return:
  assumes "beforeResolve f overrideParams context s = (Return e2, s2)"
  shows "\<exists>g. hookThenMap f context = Inr g \<and> e2 = assignOverrides g overrideParams
           \<and> contextFailure f context = None"
  using assms
  by (auto simp: beforeResolve_def hookThenMap_def split: option.splits sum.splits)

lemma save_Return:
  "save E f e saveOptions s = (Return e', s') \<Longrightarrow>
     \<exists>ds. seedingSource f = Inr ds
       \<and> trace s' = trace s @ (if ds \<in> set (initialized s) then [] else [Initialize ds])
                      @ [Save ds e saveOptions]"
  by (auto simp: save_def Let_def split: sum.splits if_splits)


text \<open>
  The entity that a construction hands to its finalize hook holds no promise-like
  value, and it holds a factory instance only where the value before resolution was
  promise-like and settled to that instance.
\<close>

lemma makeEntity_resolved:
  assumes "makeEntity E fuel f overrideParams context persist saveOptions s = (Return e, s')"
  shows "\<exists>e2 r. finalize f r context = Inr e
     \<and> (\<exists>g. hookThenMap f context = Inr g \<and> e2 = assignOverrides g overrideParams)
     \<and> (\<forall>k v. map_of r k = Some v \<longrightarrow>
            \<not> isPromiseLike v
          \<and> (instanceofFactory v \<noteq> None \<longrightarrow>
               (\<exists>p. map_of e2 k = Some p \<and> isPromiseLike p \<and> await p = Inr v)))"
proof -
  from makeEntity_Return[OF assms] obtain e2 s2 r s3 where
    b: "beforeResolve f overrideParams context s = (Return e2, s2)" and
    r: "resolveEntity E fuel e2 persist saveOptions s2 = (Return r, s3)" and
    f: "finalize f r context = Inr e" by blast
  have "\<not> isPromiseLike v \<and> (instanceofFactory v \<noteq> None \<longrightarrow>
               (\<exists>p. map_of e2 k = Some p \<and> isPromiseLike p \<and> await p = Inr v))"
    if kv: "map_of r k = Some v" for k v
  proof (cases "map_of e2 k")
    case None
    with resolveEntity_lookup(1)[OF r None] kv show ?thesis by simp
  next
    case (Some p)
    from resolveEntity_lookup(2)[OF r Some] kv
    have "resolvedTo E fuel persist saveOptions s2 s3 p v" by auto
    then show ?thesis
      using Some
      by (auto simp: resolvedTo_def await_not_promiseLike split: if_splits option.splits)
  qed
  with f beforeResolve_Return[OF b] show ?thesis by blast
qed

subsection \<open>Factories that differ in their options only\<close>

lemma makeEntity_cong_factory:
  assumes "entityClass g = entityClass f" "requiredContextKeys g = requiredContextKeys f"
    "mapFunction g = mapFunction f" "entity_override g = entity_override f"
    "finalize_override g = finalize_override f"
  shows "makeEntity E fuel g overrideParams context persist saveOptions s
       = makeEntity E fuel f overrideParams context persist saveOptions s"
proof -
  have "beforeResolve g overrideParams context s = beforeResolve f overrideParams context s"
    using assms
    by (simp add: beforeResolve_def contextFailure_def entity_def
          cong: option.case_cong sum.case_cong)
  moreover have "afterResolve g context = afterResolve f context"
    using assms by (simp add: afterResolve_def finalize_def fun_eq_iff)
  ultimately show ?thesis by (simp add: makeEntity_phases)
qed

lemma create_cong_factory:
  assumes "entityClass g = entityClass f" "requiredContextKeys g = requiredContextKeys f"
    "mapFunction g = mapFunction f" "entity_override g = entity_override f"
    "finalize_override g = finalize_override f" "seedingSource g = seedingSource f"
  shows "create E fuel g overrideParams context saveOptions s
       = create E fuel f overrideParams context saveOptions s"
proof -
  have "save E g = save E f"
    using assms(6) by (simp add: save_def fun_eq_iff)
  then show ?thesis
    using makeEntity_cong_factory[OF assms(1-5)] by (simp add: create_phases)
qed

section \<open>The claims\<close>

text \<open>
  In what follows a hook is a function of its arguments: it has no access to the
  persistence collaborator, and what it does to the entity is what it returns. The
  events of a call are those that \<open>factory.ts\<close> itself causes.
\<close>

subsection \<open>C1: finalize and save\<close>




subsection \<open>C2: the save options of a nested create\<close>

text \<open>
  C2, evaluated where the code departs from it. \<open>resolveEntity\<close> calls
  \<^verbatim>\<open>attributeValue.create(undefined, saveOptions)\<close>, and the parameters of \<open>create\<close> are
  \<open>(overrideParams, context, saveOptions)\<close>. Creating a pet with the save options
  \<open>{transaction: false}\<close>: the entity hook and the finalize hook of the nested user
  factory receive the save options as their context, and the user is saved with no
  save options; only the pet is saved with them.
\<close>

theorem nested_create_arguments:
  "trace (snd (create testEnv 1 petFactory [] []
                 (Some [(''transaction'', VBoolean False)]) freshState)) =
     [EntityHook (Some [(''owner'', VUndefined)]) [],
      EntityHook (Some [(''id'', VUndefined), (''name'', VUndefined)])
        [(''transaction'', VBoolean False)],
      Finalize [(''id'', VUndefined), (''name'', VString ''Jane'')]
        [(''transaction'', VBoolean False)],
      Initialize 0,
      Save 0 [(''id'', VUndefined), (''name'', VString ''Jane'')] None,
      Finalize
        [(''owner'', VObject [(''id'', VNumber 4), (''name'', VString ''Jane'')])] [],
      Save 0
        [(''owner'', VObject [(''id'', VNumber 4), (''name'', VString ''Jane'')])]
        (Some [(''transaction'', VBoolean False)])]"
  by (simp add: evaluation)

subsection \<open>C3: what a returned entity holds\<close>

text \<open>
  C3, evaluated where the code departs from it. The owner given to the pet factory is a
  promise fulfilled with the user factory. The loop of \<open>resolveEntity\<close> stores the
  awaited value, the factory instance, and then tests the value it read before the
  await, the promise, with \<^verbatim>\<open>instanceof Factory\<close>: the nested factory is not called, and
  both \<open>make\<close> and \<open>create\<close> return an entity whose owner is the raw factory instance.
  (The lemma \<open>makeEntity_resolved\<close> above is what does hold of every resolved entity.)
\<close>

theorem promise_of_factory_unresolved:
  "fst (make testEnv 1 petFactory [(''owner'', VPromise (VFactory 0))] [] freshState)
     = Return [(''owner'', VFactory 0)]
   \<and> fst (create testEnv 1 petFactory [(''owner'', VPromise (VFactory 0))] [] None freshState)
     = Return [(''owner'', VFactory 0), (''id'', VNumber 3)]"
  by (simp add: evaluation)

subsection \<open>C4: overrides and generated attributes\<close>




subsection \<open>C5: a missing required context key\<close>

text \<open>
  C5. If a factory declares required context keys and the context given does not
  satisfy one of the entries (a key that is absent, or a group with an absent member),
  then \<open>make\<close> and \<open>create\<close> fail with a \<open>MissingContextError\<close> that names an
  unsatisfied entry, and the state is the one the call started in: no hook was invoked
  and nothing was persisted. (\<open>expectContext\<close> is modelled from the spec.)
\<close>

theorem missing_context_fails_without_effects:
  assumes "requiredContextKeys f = Some ks" and "entry \<in> set ks"
    and "\<not> satisfied context entry"
  shows "\<exists>missing. missing \<in> set ks \<and> \<not> satisfied context missing
     \<and> make E fuel f overrideParams context s = (Throw (MissingContextError missing), s)
     \<and> create E fuel f overrideParams context saveOptions s
         = (Throw (MissingContextError missing), s)"
proof -
  from expectContext_Some[OF assms(2,3)] obtain missing where
    m: "expectContext context ks = Some (MissingContextError missing)"
       "missing \<in> set ks" "\<not> satisfied context missing"
    by blast
  have "makeEntity E fuel f overrideParams context persist so s
          = (Throw (MissingContextError missing), s)" for persist so
    using assms(1) m(1) by (simp add: makeEntity.simps)
  then show ?thesis
    using m by (auto simp: make.simps create.simps)
qed

theorem missing_context_fails_without_effects_witness:
  "requiredContextKeys tenantFactory = Some [Key ''tenant'']
   \<and> Key ''tenant'' \<in> set [Key ''tenant'']
   \<and> \<not> satisfied [(''region'', VString ''eu'')] (Key ''tenant'')
   \<and> make testEnv 0 tenantFactory [] [(''region'', VString ''eu'')] freshState
       = (Throw (MissingContextError (Key ''tenant'')), freshState)
   \<and> create testEnv 0 tenantFactory [] [(''region'', VString ''eu'')] None freshState
       = (Throw (MissingContextError (Key ''tenant'')), freshState)"
proof -
  have h1: "requiredContextKeys tenantFactory = Some [Key ''tenant'']"
    by (simp add: requiredContextKeys_def tenantFactory_def)
  have h2: "Key ''tenant'' \<in> set [Key ''tenant'']" by simp
  have h3: "\<not> satisfied [(''region'', VString ''eu'')] (Key ''tenant'')" by simp
  from missing_context_fails_without_effects
         [OF h1 h2 h3, of testEnv 0 "[]" freshState None]
  show ?thesis using h1 h3 by auto
qed

subsection \<open>C6: no entity class and no entity hook\<close>

text \<open>
  C6, as amended. If no entity class is configured for a factory, neither among its
  options nor among its option overrides, and the \<open>entity\<close> method is not overridden,
  then every \<open>make\<close> and \<open>create\<close> fails and returns no entity: with the error of the
  validation of the context when that fails (nothing has happened then), and with a
  \<open>NotImplementedError\<close> otherwise (the \<open>entity\<close> method was invoked, with no instance).
\<close>

theorem no_entity_class_fails:
  assumes "entityClass f = None" and "entity_override f = None"
  shows "make E fuel f overrideParams context s =
           (case contextFailure f context of
              Some err \<Rightarrow> (Throw err, s)
            | None \<Rightarrow> (Throw NotImplementedError,
                        s\<lparr>trace := trace s @ [EntityHook None context]\<rparr>))
       \<and> create E fuel f overrideParams context saveOptions s =
           (case contextFailure f context of
              Some err \<Rightarrow> (Throw err, s)
            | None \<Rightarrow> (Throw NotImplementedError,
                        s\<lparr>trace := trace s @ [EntityHook None context]\<rparr>))"
  using assms
  by (simp add: make.simps create.simps makeEntity.simps contextFailure_def entity_def
        split: option.splits)

theorem no_entity_class_fails_witness:
  "entityClass bareFactory = None \<and> entity_override bareFactory = None
   \<and> make testEnv 0 bareFactory [] [] freshState
       = (Throw NotImplementedError, \<lparr>initialized = [], trace = [EntityHook None []]\<rparr>)
   \<and> create testEnv 0 bareFactory [] [] None freshState
       = (Throw NotImplementedError, \<lparr>initialized = [], trace = [EntityHook None []]\<rparr>)"
proof -
  have h1: "entityClass bareFactory = None" by (simp add: entityClass_def bareFactory_def)
  have h2: "entity_override bareFactory = None" by (simp add: bareFactory_def)
  have c: "contextFailure bareFactory [] = None"
    by (simp add: contextFailure_def requiredContextKeys_def bareFactory_def)
  from no_entity_class_fails [OF h1 h2, of testEnv 0 "[]" "[]" freshState None]
  show ?thesis using h1 h2 c by (simp add: freshState_def)
qed

text \<open>
  C6, as stated, fails twice. A factory whose definition configures no entity class and
  which inherits the \<open>entity\<close> method, constructed with an entity class among its option
  overrides, makes an entity. And a factory with no entity class at all that requires the
  context key \<open>tenant\<close> fails, when the key is missing, with a \<open>MissingContextError\<close>,
  not with a \<open>NotImplementedError\<close>.
\<close>

theorem no_entity_class_counterexample:
  "opt_entity (options classlessFactory) = None
   \<and> entity_override classlessFactory = None
   \<and> fst (make testEnv 0 classlessFactory [] [] freshState) = Return [(''id'', VUndefined)]
   \<and> entityClass tenantFactory = None
   \<and> entity_override tenantFactory = None
   \<and> fst (make testEnv 0 tenantFactory [] [] freshState)
       = Throw (MissingContextError (Key ''tenant''))
   \<and> fst (create testEnv 0 tenantFactory [] [] None freshState)
       = Throw (MissingContextError (Key ''tenant''))"
  by (simp add: evaluation)

subsection \<open>C7: makeMany and createMany\<close>

text \<open>
  C7. For every amount \<open>n \<ge> 0\<close>, \<open>makeMany\<close> is \<open>make\<close> run \<open>n\<close> times one after the
  other, and \<open>createMany\<close> is \<open>create\<close> run \<open>n\<close> times one after the other, the results
  collected in the order of the calls; a list they return has exactly \<open>n\<close> entities;
  and for \<open>n = 0\<close> they return the empty list in the state they started in (no hook
  invocation, no call on the collaborator).
\<close>

theorem many_is_sequence:
  "0 \<le> n \<Longrightarrow>
     makeMany E fuel f n overrideParams context s
       = sequentially (nat n) (make E fuel f overrideParams context) s
   \<and> createMany E fuel f n overrideParams context saveOptions s
       = sequentially (nat n) (create E fuel f overrideParams context saveOptions) s
   \<and> (\<forall>es s'. makeMany E fuel f n overrideParams context s = (Return es, s')
         \<longrightarrow> int (length es) = n)
   \<and> (\<forall>es s'. createMany E fuel f n overrideParams context saveOptions s = (Return es, s')
         \<longrightarrow> int (length es) = n)
   \<and> (n = 0 \<longrightarrow> makeMany E fuel f n overrideParams context s = (Return [], s)
              \<and> createMany E fuel f n overrideParams context saveOptions s = (Return [], s))"
proof -
  assume n: "0 \<le> n"
  have m: "makeMany E fuel f n overrideParams context s
       = sequentially (nat n) (make E fuel f overrideParams context) s"
    by (simp add: makeMany_def manyLoop_from_start)
  have c: "createMany E fuel f n overrideParams context saveOptions s
       = sequentially (nat n) (create E fuel f overrideParams context saveOptions) s"
    by (simp add: createMany_def manyLoop_from_start)
  have lm: "int (length es) = n"
    if "makeMany E fuel f n overrideParams context s = (Return es, s')" for es s'
    using that n sequentially_length[of "nat n" "make E fuel f overrideParams context" s es s']
    by (simp add: m)
  have lc: "int (length es) = n"
    if "createMany E fuel f n overrideParams context saveOptions s = (Return es, s')" for es s'
    using that n
      sequentially_length[of "nat n" "create E fuel f overrideParams context saveOptions" s es s']
    by (simp add: c)
  have z: "n = 0 \<longrightarrow> makeMany E fuel f n overrideParams context s = (Return [], s)
              \<and> createMany E fuel f n overrideParams context saveOptions s = (Return [], s)"
    using m c by auto
  from m c lm lc z show ?thesis by blast
qed

theorem many_is_sequence_witness:
  "(0::int) \<le> 2
   \<and> makeMany testEnv 0 userFactory 2 [] [] freshState
       = sequentially (nat 2) (make testEnv 0 userFactory [] []) freshState
   \<and> createMany testEnv 0 userFactory 2 [] [] None freshState
       = sequentially (nat 2) (create testEnv 0 userFactory [] [] None) freshState
   \<and> fst (makeMany testEnv 0 userFactory 2 [] [] freshState)
       = Return [[(''id'', VUndefined), (''name'', VString ''Jane'')],
                 [(''id'', VUndefined), (''name'', VString ''Jane'')]]
   \<and> fst (createMany testEnv 0 userFactory 2 [] [] None freshState)
       = Return [[(''id'', VNumber 3), (''name'', VString ''Jane'')],
                 [(''id'', VNumber 6), (''name'', VString ''Jane'')]]
   \<and> makeMany testEnv 0 userFactory 0 [] [] freshState = (Return [], freshState)
   \<and> createMany testEnv 0 userFactory 0 [] [] None freshState = (Return [], freshState)"
proof -
  have h2: "(0::int) \<le> 2" by simp
  have h0: "(0::int) \<le> 0" by simp
  have m: "fst (sequentially (nat 2) (make testEnv 0 userFactory [] []) freshState)
       = Return [[(''id'', VUndefined), (''name'', VString ''Jane'')],
                 [(''id'', VUndefined), (''name'', VString ''Jane'')]]"
    by (simp add: evaluation numeral_2_eq_2)
  have c: "fst (sequentially (nat 2) (create testEnv 0 userFactory [] [] None) freshState)
       = Return [[(''id'', VNumber 3), (''name'', VString ''Jane'')],
                 [(''id'', VNumber 6), (''name'', VString ''Jane'')]]"
    by (simp add: evaluation numeral_2_eq_2)
  from many_is_sequence [OF h2, of testEnv 0 userFactory "[]" "[]" freshState None]
       many_is_sequence [OF h0, of testEnv 0 userFactory "[]" "[]" freshState None]
  show ?thesis using m c by simp
qed

subsection \<open>C8: make does not persist\<close>

text \<open>
  C8. Whatever the factory, the overrides, the context and the nesting, and whether the
  call returns, throws or runs out of fuel: \<open>make\<close> leaves the set of initialized data
  sources as it was, and none of the events it adds is an initialization or a save.
\<close>

theorem make_never_persists:
  "initialized (snd (make E fuel f overrideParams context s)) = initialized s
   \<and> (\<exists>evs. trace (snd (make E fuel f overrideParams context s)) = trace s @ evs
         \<and> filter persistenceEvent evs = [])"
  using quiet_make[of s E fuel f overrideParams "context"] by (simp add: quiet_def)

subsection \<open>C9: option overrides before options\<close>

text \<open>
  C9. If the entity class is set among the option overrides, a construction uses it:
  when the validation of the context passes, the first event of \<open>make\<close> and of
  \<open>create\<close> is the entity hook invoked with an instance of that class (and the base
  \<open>entity\<close> method returns that instance); and \<open>make\<close> and \<open>create\<close> do the same
  whatever the options of the definition say about it (\<open>d\<close> is any other value there).
  If the required context keys are set among the option overrides, a construction
  validates the context against them: when they are not satisfied, \<open>make\<close> and \<open>create\<close>
  throw the error of that validation with nothing done, when they are, the entity hook
  is invoked; and again the options of the definition do not matter.
  If an item is not set among the option overrides, the value of the options
  is used: the factory behaves as if that value had been given as the override.
\<close>

theorem overrides_take_precedence:
  "(opt_entity (optionOverrides f) = Some c \<longrightarrow>
      entityClass f = Some c
    \<and> (contextFailure f context = None \<longrightarrow>
          (\<exists>evs. trace (snd (make E fuel f overrideParams context s))
                  = trace s @ EntityHook (Some c) context # evs)
        \<and> (\<exists>evs. trace (snd (create E fuel f overrideParams context saveOptions s))
                  = trace s @ EntityHook (Some c) context # evs))
    \<and> (entity_override f = None \<longrightarrow> hookThenMap f context =
          (case mapFunction f of None \<Rightarrow> Inr c | Some fn \<Rightarrow> fn c))
    \<and> make E fuel (f\<lparr>options := (options f)\<lparr>opt_entity := d\<rparr>\<rparr>) overrideParams context s
        = make E fuel f overrideParams context s
    \<and> create E fuel (f\<lparr>options := (options f)\<lparr>opt_entity := d\<rparr>\<rparr>)
          overrideParams context saveOptions s
        = create E fuel f overrideParams context saveOptions s)
 \<and> (opt_requiredContextKeys (optionOverrides f) = Some ks \<longrightarrow>
      requiredContextKeys f = Some ks
    \<and> (\<forall>err. expectContext context ks = Some err \<longrightarrow>
            make E fuel f overrideParams context s = (Throw err, s)
          \<and> create E fuel f overrideParams context saveOptions s = (Throw err, s))
    \<and> (expectContext context ks = None \<longrightarrow>
          (\<exists>evs. trace (snd (make E fuel f overrideParams context s))
                  = trace s @ EntityHook (entityClass f) context # evs)
        \<and> (\<exists>evs. trace (snd (create E fuel f overrideParams context saveOptions s))
                  = trace s @ EntityHook (entityClass f) context # evs))
    \<and> make E fuel (f\<lparr>options := (options f)\<lparr>opt_requiredContextKeys := dk\<rparr>\<rparr>)
          overrideParams context s
        = make E fuel f overrideParams context s
    \<and> create E fuel (f\<lparr>options := (options f)\<lparr>opt_requiredContextKeys := dk\<rparr>\<rparr>)
          overrideParams context saveOptions s
        = create E fuel f overrideParams context saveOptions s)
 \<and> (opt_entity (optionOverrides f) = None \<longrightarrow>
      entityClass f = opt_entity (options f)
    \<and> (contextFailure f context = None \<longrightarrow>
          (\<exists>evs. trace (snd (make E fuel f overrideParams context s))
                  = trace s @ EntityHook (opt_entity (options f)) context # evs)
        \<and> (\<exists>evs. trace (snd (create E fuel f overrideParams context saveOptions s))
                  = trace s @ EntityHook (opt_entity (options f)) context # evs))
    \<and> make E fuel (f\<lparr>optionOverrides :=
                       (optionOverrides f)\<lparr>opt_entity := opt_entity (options f)\<rparr>\<rparr>)
          overrideParams context s
        = make E fuel f overrideParams context s)
 \<and> (opt_requiredContextKeys (optionOverrides f) = None \<longrightarrow>
      requiredContextKeys f = opt_requiredContextKeys (options f)
    \<and> (\<forall>dks err. opt_requiredContextKeys (options f) = Some dks \<longrightarrow>
            expectContext context dks = Some err \<longrightarrow>
            make E fuel f overrideParams context s = (Throw err, s)
          \<and> create E fuel f overrideParams context saveOptions s = (Throw err, s))
    \<and> make E fuel (f\<lparr>optionOverrides :=
                       (optionOverrides f)\<lparr>opt_requiredContextKeys :=
                                               opt_requiredContextKeys (options f)\<rparr>\<rparr>)
          overrideParams context s
        = make E fuel f overrideParams context s)"
proof (intro conjI impI)
  assume c: "opt_entity (optionOverrides f) = Some c"
  then show ec: "entityClass f = Some c" by (simp add: entityClass_def)
  show "make E fuel (f\<lparr>options := (options f)\<lparr>opt_entity := d\<rparr>\<rparr>) overrideParams context s
        = make E fuel f overrideParams context s"
    using c
    by (auto simp: make.simps entityClass_def requiredContextKeys_def split: option.splits
          intro!: makeEntity_cong_factory)
  show "create E fuel (f\<lparr>options := (options f)\<lparr>opt_entity := d\<rparr>\<rparr>)
          overrideParams context saveOptions s
        = create E fuel f overrideParams context saveOptions s"
    using c
    by (auto simp: entityClass_def requiredContextKeys_def seedingSource_def
          split: option.splits intro!: create_cong_factory)
  {
    assume "entity_override f = None"
    then show "hookThenMap f context =
          (case mapFunction f of None \<Rightarrow> Inr c | Some fn \<Rightarrow> fn c)"
      using ec by (simp add: hookThenMap_def entity_def)
  }
  {
    assume v: "contextFailure f context = None"
    show "\<exists>evs. trace (snd (make E fuel f overrideParams context s))
                  = trace s @ EntityHook (Some c) context # evs"
      using make_first_event[OF v] ec by simp
    show "\<exists>evs. trace (snd (create E fuel f overrideParams context saveOptions s))
                  = trace s @ EntityHook (Some c) context # evs"
      using create_first_event[OF v] ec by simp
  }
next
  assume k: "opt_requiredContextKeys (optionOverrides f) = Some ks"
  then show rk: "requiredContextKeys f = Some ks" by (simp add: requiredContextKeys_def)
  show "make E fuel (f\<lparr>options := (options f)\<lparr>opt_requiredContextKeys := dk\<rparr>\<rparr>)
          overrideParams context s
        = make E fuel f overrideParams context s"
    using k
    by (auto simp: make.simps entityClass_def requiredContextKeys_def split: option.splits
          intro!: makeEntity_cong_factory)
  show "create E fuel (f\<lparr>options := (options f)\<lparr>opt_requiredContextKeys := dk\<rparr>\<rparr>)
          overrideParams context saveOptions s
        = create E fuel f overrideParams context saveOptions s"
    using k
    by (auto simp: entityClass_def requiredContextKeys_def seedingSource_def
          split: option.splits intro!: create_cong_factory)
  show "\<forall>err. expectContext context ks = Some err \<longrightarrow>
            make E fuel f overrideParams context s = (Throw err, s)
          \<and> create E fuel f overrideParams context saveOptions s = (Throw err, s)"
    using rk by (simp add: make_validation_fails create_validation_fails contextFailure_def)
  {
    assume "expectContext context ks = None"
    with rk have v: "contextFailure f context = None" by (simp add: contextFailure_def)
    show "\<exists>evs. trace (snd (make E fuel f overrideParams context s))
                  = trace s @ EntityHook (entityClass f) context # evs"
      by (rule make_first_event[OF v])
    show "\<exists>evs. trace (snd (create E fuel f overrideParams context saveOptions s))
                  = trace s @ EntityHook (entityClass f) context # evs"
      by (rule create_first_event[OF v])
  }
next
  assume n: "opt_entity (optionOverrides f) = None"
  then show ec: "entityClass f = opt_entity (options f)" by (simp add: entityClass_def)
  show "make E fuel (f\<lparr>optionOverrides :=
                       (optionOverrides f)\<lparr>opt_entity := opt_entity (options f)\<rparr>\<rparr>)
          overrideParams context s
        = make E fuel f overrideParams context s"
    using n
    by (auto simp: make.simps entityClass_def requiredContextKeys_def split: option.splits
          intro!: makeEntity_cong_factory)
  {
    assume v: "contextFailure f context = None"
    show "\<exists>evs. trace (snd (make E fuel f overrideParams context s))
                  = trace s @ EntityHook (opt_entity (options f)) context # evs"
      using make_first_event[OF v] ec by simp
    show "\<exists>evs. trace (snd (create E fuel f overrideParams context saveOptions s))
                  = trace s @ EntityHook (opt_entity (options f)) context # evs"
      using create_first_event[OF v] ec by simp
  }
next
  assume n: "opt_requiredContextKeys (optionOverrides f) = None"
  then show rk: "requiredContextKeys f = opt_requiredContextKeys (options f)"
    by (simp add: requiredContextKeys_def)
  show "make E fuel (f\<lparr>optionOverrides :=
                       (optionOverrides f)\<lparr>opt_requiredContextKeys :=
                                               opt_requiredContextKeys (options f)\<rparr>\<rparr>)
          overrideParams context s
        = make E fuel f overrideParams context s"
    using n
    by (auto simp: make.simps entityClass_def requiredContextKeys_def split: option.splits
          intro!: makeEntity_cong_factory)
  show "\<forall>dks err. opt_requiredContextKeys (options f) = Some dks \<longrightarrow>
            expectContext context dks = Some err \<longrightarrow>
            make E fuel f overrideParams context s = (Throw err, s)
          \<and> create E fuel f overrideParams context saveOptions s = (Throw err, s)"
    using rk by (simp add: make_validation_fails create_validation_fails contextFailure_def)
qed

text \<open>
  The user factory constructed with both items overridden (the required keys of its
  definition may even ask for a key the context lacks); the factory whose overriding
  required key is missing from the context, although the keys of its definition are
  satisfied; and the user factory itself, where neither item is overridden.
\<close>

theorem overrides_take_precedence_witness:
  "opt_entity (optionOverrides configuredTwice) = Some [(''id'', VNumber 7)]
   \<and> opt_requiredContextKeys (optionOverrides configuredTwice) = Some []
   \<and> contextFailure configuredTwice [] = None
   \<and> entityClass configuredTwice = Some [(''id'', VNumber 7)]
   \<and> (\<exists>evs. trace (snd (make testEnv 0 configuredTwice [] [] freshState))
              = trace freshState @ EntityHook (Some [(''id'', VNumber 7)]) [] # evs)
   \<and> (\<exists>evs. trace (snd (create testEnv 0 configuredTwice [] [] None freshState))
              = trace freshState @ EntityHook (Some [(''id'', VNumber 7)]) [] # evs)
   \<and> make testEnv 0
         (configuredTwice\<lparr>options :=
            (options configuredTwice)\<lparr>opt_requiredContextKeys := Some [Key ''tenant'']\<rparr>\<rparr>)
         [] [] freshState
       = make testEnv 0 configuredTwice [] [] freshState
   \<and> opt_requiredContextKeys (optionOverrides strictFactory) = Some [Key ''tenant'']
   \<and> expectContext [] [Key ''tenant''] = Some (MissingContextError (Key ''tenant''))
   \<and> make testEnv 0 strictFactory [] [] freshState
       = (Throw (MissingContextError (Key ''tenant'')), freshState)
   \<and> create testEnv 0 strictFactory [] [] None freshState
       = (Throw (MissingContextError (Key ''tenant'')), freshState)
   \<and> opt_entity (optionOverrides userFactory) = None
   \<and> opt_requiredContextKeys (optionOverrides userFactory) = None
   \<and> contextFailure userFactory [] = None
   \<and> (\<exists>evs. trace (snd (make testEnv 0 userFactory [] [] freshState))
              = trace freshState
                @ EntityHook (Some [(''id'', VUndefined), (''name'', VUndefined)]) [] # evs)"
proof -
  have h1: "opt_entity (optionOverrides configuredTwice) = Some [(''id'', VNumber 7)]"
    by (simp add: configuredTwice_def)
  have h2: "opt_requiredContextKeys (optionOverrides configuredTwice) = Some []"
    by (simp add: configuredTwice_def)
  have h3: "contextFailure configuredTwice [] = None"
    by (simp add: contextFailure_def requiredContextKeys_def configuredTwice_def)
  have h4: "opt_requiredContextKeys (optionOverrides strictFactory) = Some [Key ''tenant'']"
    by (simp add: strictFactory_def)
  have h5: "expectContext [] [Key ''tenant''] = Some (MissingContextError (Key ''tenant''))"
    by simp
  have h6: "opt_entity (optionOverrides userFactory) = None"
    by (simp add: userFactory_def)
  have h7: "opt_requiredContextKeys (optionOverrides userFactory) = None"
    by (simp add: userFactory_def)
  have h8: "contextFailure userFactory [] = None"
    by (simp add: contextFailure_def requiredContextKeys_def userFactory_def)
  have h9: "opt_entity (options userFactory) = Some [(''id'', VUndefined), (''name'', VUndefined)]"
    by (simp add: userFactory_def)
  note a = overrides_take_precedence
         [of configuredTwice "[(''id'', VNumber 7)]" "[]" testEnv 0 "[]" freshState None None
             "[]" "Some [Key ''tenant'']"]
  note b = overrides_take_precedence
         [of strictFactory "[]" "[]" testEnv 0 "[]" freshState None None
             "[Key ''tenant'']" None]
  note c = overrides_take_precedence
         [of userFactory "[]" "[]" testEnv 0 "[]" freshState None None "[]" None]
  from a h1 h2 h3 have
    a1: "entityClass configuredTwice = Some [(''id'', VNumber 7)]" and
    a2: "\<exists>evs. trace (snd (make testEnv 0 configuredTwice [] [] freshState))
              = trace freshState @ EntityHook (Some [(''id'', VNumber 7)]) [] # evs" and
    a3: "\<exists>evs. trace (snd (create testEnv 0 configuredTwice [] [] None freshState))
              = trace freshState @ EntityHook (Some [(''id'', VNumber 7)]) [] # evs" and
    a4: "make testEnv 0
         (configuredTwice\<lparr>options :=
            (options configuredTwice)\<lparr>opt_requiredContextKeys := Some [Key ''tenant'']\<rparr>\<rparr>)
         [] [] freshState
       = make testEnv 0 configuredTwice [] [] freshState"
    by blast+
  from b h4 h5 have
    b1: "make testEnv 0 strictFactory [] [] freshState
       = (Throw (MissingContextError (Key ''tenant'')), freshState)" and
    b2: "create testEnv 0 strictFactory [] [] None freshState
       = (Throw (MissingContextError (Key ''tenant'')), freshState)"
    by blast+
  from c h6 h8 h9 have
    c1: "\<exists>evs. trace (snd (make testEnv 0 userFactory [] [] freshState))
              = trace freshState
                @ EntityHook (Some [(''id'', VUndefined), (''name'', VUndefined)]) [] # evs"
    by simp
  from h1 h2 h3 a1 a2 a3 a4 h4 h5 b1 b2 h6 h7 h8 c1 show ?thesis by blast
qed

subsection \<open>C10: a negative amount\<close>

text \<open>
  C10. For every amount strictly less than zero, \<open>makeMany\<close> and \<open>createMany\<close>
  return the empty list, and the state is the one they started in: no entity is
  constructed, no hook is invoked and nothing is persisted.
\<close>

theorem negative_amount_empty:
  "amount < 0 \<Longrightarrow>
     makeMany E fuel f amount overrideParams context s = (Return [], s)
   \<and> createMany E fuel f amount overrideParams context saveOptions s = (Return [], s)"
  by (simp add: makeMany_def createMany_def manyLoop.simps)

theorem negative_amount_empty_witness:
  "(-1 :: int) < 0
   \<and> makeMany testEnv 0 userFactory (-1) [] [] freshState = (Return [], freshState)
   \<and> createMany testEnv 0 userFactory (-1) [] [] None freshState = (Return [], freshState)"
proof -
  have h: "(-1 :: int) < 0" by simp
  show ?thesis
    using h negative_amount_empty [OF h, of testEnv 0 userFactory "[]" "[]" freshState None]
    by simp
qed

end
